theory Spec2Isabelle
  imports Main "HOL-Library.AList"
begin

text \<open>
  The generation lifecycle of the test-case assistant: the mongoose models of a
  generation and a project, the project registry, the content generator with its retry
  loop, and the handlers of the generations router (create, view, download, revise,
  publish, delete), embedded as functions on an explicit store. JIRA and the
  chat-completion API are the outside world and enter as data. The handlers are then
  read as a transition system, and the properties of versioning, status and access are
  proved about it.
\<close>

section \<open>JavaScript values and strings\<close>

text \<open>
  Strings are lists of 8-bit characters (the Latin-1 range of JavaScript's code units).
  A \<open>Date\<close> is its number of milliseconds, an ObjectId is its text. Numbers that the
  handlers compute with (\<open>currentVersion\<close>, token counts) are whole, non-negative and far
  below \<open>2^53\<close>, so they are \<open>nat\<close>; the floating-point fields \<open>cost\<close> and \<open>generationTimeSeconds\<close>
  and mongoose's automatic \<open>updatedAt\<close> are left out of the model, as are the
  \<open>jiraTickets\<close> and \<open>pdfAttachments\<close> arrays, which no handler writes.
\<close>

type_synonym time = nat
type_synonym objid = string

datatype jsval = JString string | JNumber nat

text \<open>\<open>a === b\<close>: values of different types are never strictly equal.\<close>

definition strict_equals :: "jsval \<Rightarrow> jsval \<Rightarrow> bool" where
  "strict_equals a b = (a = b)"

text \<open>\<open>s || d\<close> on strings: the empty string is falsy.\<close>

definition or_else :: "string \<Rightarrow> string \<Rightarrow> string" where
  "or_else s d = (if s = [] then d else s)"

definition is_space :: "char \<Rightarrow> bool" where
  "is_space c = (c \<in> set [CHR 0x09, CHR 0x0A, CHR 0x0B, CHR 0x0C, CHR 0x0D, CHR '' '', CHR 0xA0])"

definition trim :: "string \<Rightarrow> string" where
  "trim s = rev (dropWhile is_space (rev (dropWhile is_space s)))"

definition startsWith :: "string \<Rightarrow> string \<Rightarrow> bool" where
  "startsWith s p = (take (length p) s = p)"

definition is_letter :: "char \<Rightarrow> bool" where
  "is_letter c = (c \<in> set ''abcdefghijklmnopqrstuvwxyzABCDEFGHIJKLMNOPQRSTUVWXYZ'')"

definition is_digit :: "char \<Rightarrow> bool" where
  "is_digit c = (c \<in> set ''0123456789'')"

text \<open>\<open>toUpperCase\<close>, on the ASCII letters (the only ones the key patterns accept).\<close>

definition toUpperCase_char :: "char \<Rightarrow> char" where
  "toUpperCase_char c =
     (case map_of (zip ''abcdefghijklmnopqrstuvwxyz'' ''ABCDEFGHIJKLMNOPQRSTUVWXYZ'') c of
        Some u \<Rightarrow> u
      | None \<Rightarrow> c)"

definition toUpperCase :: "string \<Rightarrow> string" where
  "toUpperCase s = map toUpperCase_char s"

text \<open>
  The schema declares \<open>versionNumber: { type: String }\<close> (models/Generation.js, line 31),
  so the number a handler pushes is stored as its decimal text. \<open>cast_String\<close> is that
  cast on whole numbers; \<open>numeric_value\<close> reads a decimal text back.
\<close>

definition digit_char :: "nat \<Rightarrow> char" where
  "digit_char d = ''0123456789'' ! d"

function cast_String :: "nat \<Rightarrow> string" where
  "cast_String n = (if n < 10 then [digit_char n] else cast_String (n div 10) @ [digit_char (n mod 10)])"
  by pat_completeness auto
termination
  by (relation "measure id") auto

declare cast_String.simps [simp del]

definition digit_value :: "char \<Rightarrow> nat" where
  "digit_value c = (case map_of (zip ''0123456789'' [0 ..< 10]) c of Some d \<Rightarrow> d | None \<Rightarrow> 0)"

definition numeric_value :: "string \<Rightarrow> nat" where
  "numeric_value s = foldl (\<lambda>a c. 10 * a + digit_value c) 0 s"

section \<open>The data model (models/Generation.js, models/Project.js)\<close>

record version =
  versionNumber :: string
  content :: string
  releaseDate :: time
  updatedBy :: string
  version_notes :: "string option"

record markdown =
  content :: string
  filename :: "string option"

record token_usage =
  promptTokens :: nat
  completionTokens :: nat
  totalTokens :: nat

text \<open>
  \<open>status\<close> and \<open>mode\<close> are strings with an \<open>enum\<close> validator; an unset field
  (\<open>undefined\<close>) is \<open>None\<close>. \<open>result\<close> is the \<open>result.markdown\<close> sub-document.
\<close>

record generation =
  issueKey :: string
  email :: string
  project :: "objid option"
  mode :: "string option"
  status :: "string option"
  createdAt :: time
  startedAt :: "time option"
  completedAt :: "time option"
  tokenUsage :: "token_usage option"
  result :: "markdown option"
  error :: "string option"
  published :: bool
  publishedAt :: "time option"
  publishedBy :: "string option"
  versions :: "version list"
  currentVersion :: nat

record project =
  projectKey :: string
  firstGeneratedAt :: "time option"
  lastGeneratedAt :: "time option"
  totalGenerations :: nat
  createdBy :: "string option"

text \<open>
  The two collections, each in insertion order, keyed by \<open>_id\<close>. A project's \<open>name\<close>
  and \<open>description\<close>, which nothing writes, are left out.
\<close>

record db =
  generations :: "(objid \<times> generation) list"
  projects :: "(objid \<times> project) list"

definition empty_db :: db where
  "empty_db = \<lparr>generations = [], projects = []\<rparr>"

definition status_enum :: "string list" where
  "status_enum = [''completed'', ''failed'']"

definition mode_enum :: "string list" where
  "mode_enum = [''manual'', ''auto'']"

text \<open>
  What \<open>save()\<close> validates: \<open>required: true\<close> on a string rejects a missing and an
  empty value, \<open>enum\<close> rejects a set value outside the list.
\<close>

definition validate_version :: "version \<Rightarrow> bool" where
  "validate_version v = (versionNumber v \<noteq> [] \<and> version.content v \<noteq> [] \<and> updatedBy v \<noteq> [])"

definition validate_markdown :: "markdown \<Rightarrow> bool" where
  "validate_markdown m = (content m \<noteq> [] \<and> (case filename m of None \<Rightarrow> False | Some f \<Rightarrow> f \<noteq> []))"

definition validate :: "generation \<Rightarrow> bool" where
  "validate g =
     ((case mode g of None \<Rightarrow> True | Some m \<Rightarrow> m \<in> set mode_enum) \<and>
      (case status g of None \<Rightarrow> True | Some s \<Rightarrow> s \<in> set status_enum) \<and>
      (case result g of None \<Rightarrow> True | Some m \<Rightarrow> validate_markdown m) \<and>
      list_all validate_version (versions g))"

definition save :: "objid \<Rightarrow> generation \<Rightarrow> db \<Rightarrow> string + db" where
  "save gid doc d =
     (if validate doc then Inr (d\<lparr>generations := AList.update gid doc (generations d)\<rparr>)
      else Inl ''Generation validation failed'')"

definition findById :: "objid \<Rightarrow> db \<Rightarrow> generation option" where
  "findById gid d = map_of (generations d) gid"

definition findByIdAndDelete :: "objid \<Rightarrow> db \<Rightarrow> db" where
  "findByIdAndDelete gid d = d\<lparr>generations := AList.delete gid (generations d)\<rparr>"

text \<open>\<open>Generation.countDocuments({ project: pid })\<close>.\<close>

definition countDocuments :: "objid \<Rightarrow> db \<Rightarrow> nat" where
  "countDocuments pid d = length (filter (\<lambda>(i, g). project g = Some pid) (generations d))"

text \<open>\<open>new Generation({issueKey, email, project, mode, startedAt})\<close> with the schema's defaults.\<close>

definition new_Generation :: "string \<Rightarrow> string \<Rightarrow> objid option \<Rightarrow> string \<Rightarrow> time \<Rightarrow> generation" where
  "new_Generation k actor p m t =
     \<lparr>issueKey = k, email = actor, project = p, mode = Some m, status = None,
      createdAt = t, startedAt = Some t, completedAt = None, tokenUsage = None,
      result = None, error = None, published = False, publishedAt = None,
      publishedBy = None, versions = [], currentVersion = 1\<rparr>"

section \<open>The project registry (utils/projectUtils.js)\<close>

text \<open>
  \<open>/^([A-Z][A-Z0-9]+)-/i\<close>: a letter, then the longest run of letters and digits, which
  must be non-empty and followed by a dash; the group is returned in upper case.
\<close>

definition extractProjectKey :: "string \<Rightarrow> string option" where
  "extractProjectKey k =
     (case k of
        [] \<Rightarrow> None
      | c # rest \<Rightarrow>
          (let run = takeWhile (\<lambda>x. is_letter x \<or> is_digit x) rest;
               after = dropWhile (\<lambda>x. is_letter x \<or> is_digit x) rest
           in if is_letter c \<and> run \<noteq> [] \<and> startsWith after ''-''
              then Some (toUpperCase (c # run)) else None))"

definition save_project :: "objid \<Rightarrow> project \<Rightarrow> db \<Rightarrow> string + db" where
  "save_project pid p d =
     (if projectKey p \<noteq> [] then Inr (d\<lparr>projects := AList.update pid p (projects d)\<rparr>)
      else Inl ''Project validation failed'')"

text \<open>
  \<open>findOrCreateProject(projectKey, userEmail)\<close>: the error it throws, or the \<open>_id\<close> of
  the project it returns, with the store it leaves. \<open>fresh\<close> is the \<open>_id\<close> a new
  document gets.
\<close>

definition findOrCreateProject :: "string \<Rightarrow> string \<Rightarrow> objid \<Rightarrow> time \<Rightarrow> db \<Rightarrow> (string + objid) \<times> db" where
  "findOrCreateProject key userEmail fresh t d =
     (if key = [] then (Inl ''Project key is required to find or create a project.'', d)
      else
        (let normalizedKey = toUpperCase (trim key) in
         case find (\<lambda>(i, p). projectKey p = normalizedKey) (projects d) of
           None \<Rightarrow>
             (case save_project fresh
                     \<lparr>projectKey = normalizedKey, firstGeneratedAt = Some t,
                      lastGeneratedAt = Some t, totalGenerations = 0,
                      createdBy = Some userEmail\<rparr> d of
                Inl e \<Rightarrow> (Inl e, d)
              | Inr d' \<Rightarrow> (Inr fresh, d'))
         | Some (i, p) \<Rightarrow>
             (case save_project i (p\<lparr>lastGeneratedAt := Some t\<rparr>) d of
                Inl e \<Rightarrow> (Inl e, d)
              | Inr d' \<Rightarrow> (Inr i, d'))))"

section \<open>The content generator (services/openAIService.js)\<close>

definition MANUAL_PROMPT :: string where
  \<open>MANUAL_PROMPT =
     ''You are an expert manual QA Engineer. Generate comprehensive test cases from JIRA issue descriptions.\<newline>'' @
     ''\<newline>'' @
     ''**Context:** You will receive JIRA issue details including title, description, comments, and acceptance criteria. Use ONLY this information - never invent requirements.\<newline>'' @
     ''\<newline>'' @
     ''**Output Requirements:**\<newline>'' @
     ''1. Use proper markdown with ## for main headings and - for bullet points\<newline>'' @
     ''2. Include a title: "# Test Cases for [JIRA-ID]: [Issue Title]"\<newline>'' @
     ''3. Structure by categories: ## **Functional Requirements**, ## **UI & Visual Validation**, ## **Edge Cases**, ## **Data Integrity** (if applicable)\<newline>'' @
     ''4. Include blank lines before and after lists\<newline>'' @
     ''5. Each test case should be:\<newline>'' @
     ''   - Clear and actionable\<newline>'' @
     ''   - Cover specific acceptance criteria\<newline>'' @
     ''   - Include preconditions, steps, and expected results\<newline>'' @
     ''   - Prioritized (High/Medium/Low)\<newline>'' @
     ''\<newline>'' @
     ''**Must NOT:**\<newline>'' @
     ''- Never mention specific individual names\<newline>'' @
     ''- Never include implementation details (HTML classes, functions)\<newline>'' @
     ''- Never invent requirements not in the JIRA issue\<newline>'' @
     ''\<newline>'' @
     ''**Coverage:**\<newline>'' @
     ''- Positive and negative test cases\<newline>'' @
     ''- Edge cases and boundary conditions\<newline>'' @
     ''- Error handling\<newline>'' @
     ''- User workflows\<newline>'' @
     ''- Form validations\<newline>'' @
     ''- State transitions\<newline>'' @
     ''- Accessibility considerations (if UI-related)\<newline>'' @
     ''\<newline>'' @
     ''Generate comprehensive test cases now.''\<close>

text \<open>
  The chat-completion client is the outside world: what its \<open>k\<close>-th call (counted from
  0) does with the messages it is sent. A response carries \<open>choices[0].message.content\<close>
  (empty when absent) and the usage counts (0 when absent).
\<close>

datatype api_outcome = ApiError string | ApiResponse string token_usage

type_synonym client = "nat \<Rightarrow> (string \<times> string) list \<Rightarrow> api_outcome"

datatype generated = Generated string token_usage

datatype 'a completion = Returned 'a | Thrown string

text \<open>
  \<open>autoMode ? AUTO_PROMPT : MANUAL_PROMPT\<close> (line 56). The module declares and imports no
  \<open>AUTO_PROMPT\<close>, so evaluating that branch throws a ReferenceError.
\<close>

definition systemPrompt :: "bool \<Rightarrow> string + string" where
  "systemPrompt autoMode = (if autoMode then Inl ''AUTO_PROMPT is not defined'' else Inr MANUAL_PROMPT)"

definition maxRetries :: nat where
  "maxRetries = 3"

record retry_state =
  retryCount :: nat
  lastError :: "string option"

text \<open>The \<open>try\<close> block of the loop (lines 75 to 104): one call of the client.\<close>

definition attempt :: "api_outcome \<Rightarrow> string + generated" where
  "attempt r =
     (case r of
        ApiError m \<Rightarrow> Inl m
      | ApiResponse c usage \<Rightarrow> if c = [] then Inl ''Empty response from OpenAI'' else Inr (Generated c usage))"

text \<open>
  One run of the loop body (lines 75 to 113), which calls the client once; the calls made
  before it are as many as \<open>retryCount\<close>. The result is \<open>Inr\<close> when the body leaves the function
  (\<open>return\<close> or \<open>throw\<close>), \<open>Inl\<close> with the new state when it reaches its end and the
  loop tests its condition again. The \<open>catch\<close> block records the error and counts up;
  it throws when the count has reached \<open>maxRetries\<close>, and otherwise control reaches the
  statement after the \<open>try\<close>, line 113, which is inside the loop and throws
  \<open>lastError\<close>.
\<close>

definition loop_body :: "client \<Rightarrow> (string \<times> string) list \<Rightarrow> retry_state \<Rightarrow> retry_state + generated option completion" where
  "loop_body cl messages st =
     (case attempt (cl (retryCount st) messages) of
        Inr r \<Rightarrow> Inr (Returned (Some r))
      | Inl err \<Rightarrow>
          (let st' = st\<lparr>lastError := Some err, retryCount := retryCount st + 1\<rparr>
           in if retryCount st' = maxRetries then Inr (Thrown err)
              else Inr (Thrown (case lastError st' of Some e \<Rightarrow> e | None \<Rightarrow> ''OpenAI generation failed''))))"

text \<open>
  \<open>while (retryCount < this.maxRetries) { ... }\<close>; a loop that ends without a
  \<open>return\<close> makes the function return \<open>undefined\<close> (\<open>None\<close>).
\<close>

function while_loop :: "client \<Rightarrow> (string \<times> string) list \<Rightarrow> retry_state \<Rightarrow> generated option completion" where
  "while_loop cl messages st =
     (if retryCount st < maxRetries
      then (case loop_body cl messages st of
              Inl st' \<Rightarrow> while_loop cl messages st'
            | Inr c \<Rightarrow> c)
      else Returned None)"
  by pat_completeness auto
termination
  by (relation "{}") (auto simp: loop_body_def Let_def split: sum.splits if_splits)

declare while_loop.simps [simp del]

definition generateTestCases :: "client \<Rightarrow> string \<Rightarrow> string \<Rightarrow> bool \<Rightarrow> generated option completion" where
  "generateTestCases cl context k autoMode =
     (case systemPrompt autoMode of
        Inl e \<Rightarrow> Thrown e
      | Inr prompt \<Rightarrow>
          (let issueContext = ''\<newline>\<newline>### JIRA Issue: '' @ k @ ''\<newline>\<newline>'' @ context;
               messages = [(''system'', prompt), (''user'', issueContext)]
           in while_loop cl messages \<lparr>retryCount = 0, lastError = None\<rparr>))"

section \<open>The routes (routes/generations.js)\<close>

datatype payload =
    ErrorBody string
  | Created objid string markdown
  | Viewed string string string string "string option" bool "time option" "string option" nat "version list" string
  | Revised string nat
  | PublishState bool "time option" "string option"
  | Download string string
  | Message string

datatype response = Response nat payload

fun code :: "response \<Rightarrow> nat" where
  "code (Response c p) = c"

subsection \<open>POST /testcases\<close>

text \<open>
  What one request meets outside the store: the clock when the record is created and
  when its outcome is recorded, the \<open>_id\<close>s mongoose gives new documents, whether the
  two services are configured, what \<open>jira.getIssue\<close> answers (its error, or the issue's
  summary and the text of its description) and the chat-completion client.
\<close>

datatype issue_result = Failure string | Success string string

record world =
  clock :: time
  finished :: time
  generationId :: objid
  projectId :: objid
  jiraConfigured :: bool
  getIssue :: issue_result
  openaiConfigured :: bool
  completions :: client

text \<open>
  Line 190 calls \<open>findOrCreateProject\<close> without \<open>await\<close>: the variable \<open>project\<close>
  holds the promise, not the project (\<open>proj\<close> below). The call's writes to the Project collection are
  applied here; the handler reads that collection only at line 212. A promise has no
  \<open>_id\<close> property, so \<open>project._id\<close> is \<open>undefined\<close>.
\<close>

datatype project_handle = Null | Promise "string + objid"

fun property_id :: "project_handle \<Rightarrow> objid option" where
  "property_id Null = None"
| "property_id (Promise r) = None"

text \<open>
  Lines 185 to 218: the record is created and saved, then the project's count is
  refreshed. \<open>Project.findById(undefined)\<close> finds nothing. The result is the in-memory
  document (or the error of a failed \<open>save\<close>) and the store.
\<close>

definition create_accept :: "string \<Rightarrow> string \<Rightarrow> world \<Rightarrow> db \<Rightarrow> (string + generation) \<times> db" where
  "create_accept k actor w d =
     (let (proj, d1) =
            (case extractProjectKey k of
               None \<Rightarrow> (Null, d)
             | Some pkey \<Rightarrow>
                 (let (r, d') = findOrCreateProject pkey actor (projectId w) (clock w) d
                  in (Promise r, d')));
          generation = new_Generation k actor (if proj \<noteq> Null then property_id proj else None)
                         ''manual'' (clock w)
      in case save (generationId w) generation d1 of
           Inl e \<Rightarrow> (Inl e, d1)
         | Inr d2 \<Rightarrow>
             (if proj \<noteq> Null then
                (case property_id proj of
                   None \<Rightarrow> (Inr generation, d2)
                 | Some pid \<Rightarrow>
                     (case map_of (projects d2) pid of
                        None \<Rightarrow> (Inr generation, d2)
                      | Some updatedProject \<Rightarrow>
                          (case save_project pid
                                  (updatedProject\<lparr>totalGenerations := countDocuments pid d2\<rparr>) d2 of
                             Inl e \<Rightarrow> (Inl e, d2)
                           | Inr d3 \<Rightarrow> (Inr generation, d3))))
              else (Inr generation, d2)))"

text \<open>\<open>await generation.save()\<close>, then the response; a failed save goes to the error handler.\<close>

definition save_and_respond :: "objid \<Rightarrow> generation \<Rightarrow> response \<Rightarrow> db \<Rightarrow> response \<times> db" where
  "save_and_respond gid doc r d =
     (case save gid doc d of
        Inl e \<Rightarrow> (Response 500 (ErrorBody e), d)
      | Inr d' \<Rightarrow> (r, d'))"

text \<open>
  Lines 246 to 263: the service handle and the generator call. \<open>result.content\<close> on
  \<open>undefined\<close> is a TypeError inside the same \<open>try\<close>.
\<close>

definition call_generator :: "world \<Rightarrow> string \<Rightarrow> string \<Rightarrow> bool \<Rightarrow> generated completion" where
  "call_generator w context k autoMode =
     (if \<not> openaiConfigured w
      then Thrown ''OpenAI service not configured. Please set OPENAI_API_KEY in .env''
      else (case generateTestCases (completions w) context k autoMode of
              Thrown m \<Rightarrow> Thrown m
            | Returned None \<Rightarrow>
                Thrown (''Cannot read properties of undefined (reading '' @ [CHR 0x27] @ ''content''
                        @ [CHR 0x27] @ '')'')
            | Returned (Some r) \<Rightarrow> Returned r))"

text \<open>Lines 219 to 315: the issue is fetched, the content generated, the outcome saved.\<close>

definition create_perform :: "string \<Rightarrow> bool \<Rightarrow> objid \<Rightarrow> generation \<Rightarrow> world \<Rightarrow> db \<Rightarrow> response \<times> db" where
  "create_perform k autoMode gid generation w d =
     (if \<not> jiraConfigured w
      then (Response 500 (ErrorBody ''JIRA_EMAIL and JIRA_API_TOKEN must be set in environment variables''), d)
      else
        (case getIssue w of
           Failure err \<Rightarrow>
             save_and_respond gid
               (generation\<lparr>status := Some ''failed'',
                           error := Some (or_else err ''Failed to fetch issue from JIRA''),
                           completedAt := Some (finished w)\<rparr>)
               (Response 404 (ErrorBody err)) d
         | Success summary description \<Rightarrow>
             (let context = ''Title: '' @ summary @ ''\<newline>\<newline>Description: '' @ description
              in case call_generator w context k autoMode of
                   Thrown m \<Rightarrow>
                     save_and_respond gid
                       (generation\<lparr>status := Some ''failed'',
                                   error := Some (''OpenAI generation failed: '' @ m),
                                   completedAt := Some (finished w)\<rparr>)
                       (Response 500 (ErrorBody (or_else m ''Failed to generate test cases''))) d
                 | Returned (Generated c usage) \<Rightarrow>
                     (let markdownContent =
                            (if startsWith c ''#'' then c
                             else ''# Test Cases for '' @ k @ '': '' @ or_else summary ''Untitled''
                                  @ ''\<newline>\<newline>'' @ c);
                          md = \<lparr>content = markdownContent,
                                filename = Some (k @ ''_testcases_'' @ gid @ ''.md'')\<rparr>
                      in save_and_respond gid
                           (generation\<lparr>status := Some ''completed'',
                                       completedAt := Some (finished w),
                                       tokenUsage := Some usage,
                                       result := Some md,
                                       currentVersion := 1,
                                       versions := []\<rparr>)
                           (Response 200 (Created gid k md)) d))))"

definition createGeneration :: "string option \<Rightarrow> bool \<Rightarrow> string \<Rightarrow> world \<Rightarrow> db \<Rightarrow> response \<times> db" where
  "createGeneration body_issueKey autoMode actor w d =
     (case body_issueKey of
        None \<Rightarrow> (Response 400 (ErrorBody ''issueKey is required''), d)
      | Some k \<Rightarrow>
          if k = [] then (Response 400 (ErrorBody ''issueKey is required''), d)
          else
            (case create_accept k actor w d of
               (Inl e, d1) \<Rightarrow> (Response 500 (ErrorBody e), d1)
             | (Inr generation, d1) \<Rightarrow> create_perform k autoMode (generationId w) generation w d1))"

subsection \<open>GET /:id/view and GET /:id/download\<close>

text \<open>\<open>gen.result?.markdown?.content || ""\<close> and \<open>gen.result?.markdown?.filename || "output.md"\<close>.\<close>

definition current_content :: "generation \<Rightarrow> string" where
  "current_content gen = (case result gen of None \<Rightarrow> [] | Some m \<Rightarrow> content m)"

definition current_filename :: "generation \<Rightarrow> string" where
  "current_filename gen =
     (case result gen of
        None \<Rightarrow> ''output.md''
      | Some m \<Rightarrow> (case filename m of None \<Rightarrow> ''output.md'' | Some f \<Rightarrow> or_else f ''output.md''))"

definition getGenerationView :: "objid \<Rightarrow> string \<Rightarrow> db \<Rightarrow> response" where
  "getGenerationView gid actor d =
     (case findById gid d of
        None \<Rightarrow> Response 404 (ErrorBody ''Generation not found!'')
      | Some gen \<Rightarrow>
          (let isOwner = (email gen = actor);
               isPublishedAndCompleted = (published gen \<and> status gen = Some ''completed'')
           in if \<not> isOwner \<and> \<not> isPublishedAndCompleted then Response 404 (ErrorBody ''Not found!'')
              else if status gen \<noteq> Some ''completed''
              then Response 400 (ErrorBody ''Generation not completed yet'')
              else Response 200
                     (Viewed (email gen)
                        (current_content gen)
                        (current_filename gen)
                        (issueKey gen)
                        (extractProjectKey (issueKey gen))
                        (published gen) (publishedAt gen) (publishedBy gen)
                        (currentVersion gen) (versions gen)
                        (case versions gen of [] \<Rightarrow> email gen
                         | v # vs \<Rightarrow> or_else (updatedBy (last (v # vs))) (email gen)))))"

definition downloadGeneration :: "objid \<Rightarrow> string \<Rightarrow> db \<Rightarrow> response" where
  "downloadGeneration gid actor d =
     (case findById gid d of
        None \<Rightarrow> Response 404 (ErrorBody ''Not found'')
      | Some gen \<Rightarrow>
          (let isOwner = (email gen = actor);
               isPublishedAndCompleted = (published gen \<and> status gen = Some ''completed'')
           in if \<not> isOwner \<and> \<not> isPublishedAndCompleted then Response 404 (ErrorBody ''Not found'')
              else if status gen \<noteq> Some ''completed'' then Response 400 (ErrorBody ''Not completed'')
              else Response 200
                     (Download (current_filename gen) (current_content gen))))"

subsection \<open>PUT /:id/content\<close>

text \<open>
  \<open>body_content\<close> is \<open>None\<close> when the body's \<open>content\<close> is not a string. The stored
  \<open>versionNumber\<close> is a string and \<open>currentVersionNumber\<close> a number, which is what
  the \<open>===\<close> of line 432 compares.
\<close>

text \<open>
  Lines 419 to 460 on the loaded document: the current content is archived under the
  current version number when the new content differs from it, then the content is
  overwritten.
\<close>

definition revise_document :: "generation \<Rightarrow> string \<Rightarrow> string \<Rightarrow> time \<Rightarrow> generation" where
  "revise_document gen actor c t =
     (let currentContent = current_content gen;
          gen1 =
            (if currentContent \<noteq> [] \<and> currentContent \<noteq> c then
               (let currentVersionNumber = (if currentVersion gen = 0 then 1 else currentVersion gen);
                    versionExists =
                      list_ex (\<lambda>v. strict_equals (JString (versionNumber v)) (JNumber currentVersionNumber))
                        (versions gen);
                    pushed =
                      (if \<not> versionExists
                       then versions gen @
                              [\<lparr>versionNumber = cast_String currentVersionNumber,
                                version.content = currentContent,
                                releaseDate = t,
                                updatedBy = actor,
                                version_notes = None\<rparr>]
                       else versions gen)
                in gen\<lparr>versions := pushed, currentVersion := currentVersionNumber + 1\<rparr>)
             else gen)
      in gen1\<lparr>result :=
                Some (case result gen1 of
                        None \<Rightarrow> \<lparr>content = c, filename = None\<rparr>
                      | Some m \<Rightarrow> m\<lparr>content := c\<rparr>)\<rparr>)"

definition reviseContent :: "objid \<Rightarrow> string \<Rightarrow> string option \<Rightarrow> time \<Rightarrow> db \<Rightarrow> response \<times> db" where
  "reviseContent gid actor body_content t d =
     (case body_content of
        None \<Rightarrow> (Response 400 (ErrorBody ''Content is required!''), d)
      | Some c \<Rightarrow>
          if trim c = [] then (Response 400 (ErrorBody ''Content is required!''), d)
          else
            (case findById gid d of
               None \<Rightarrow> (Response 404 (ErrorBody ''Generation not found!''), d)
             | Some gen \<Rightarrow>
                 if email gen \<noteq> actor then (Response 404 (ErrorBody ''Generation not found!''), d)
                 else if status gen \<noteq> Some ''completed''
                 then (Response 400 (ErrorBody ''Only completed generations can be updated!''), d)
                 else
                   (let gen' = revise_document gen actor c t
                    in save_and_respond gid gen'
                         (Response 200
                            (Revised (current_content gen')
                               (if currentVersion gen' = 0 then 1 else currentVersion gen')))
                         d)))"

subsection \<open>PUT /:id/publish\<close>

text \<open>\<open>body_published\<close> is \<open>None\<close> when the body's \<open>published\<close> is not a boolean.\<close>

definition setPublished :: "objid \<Rightarrow> string \<Rightarrow> bool option \<Rightarrow> time \<Rightarrow> db \<Rightarrow> response \<times> db" where
  "setPublished gid actor body_published t d =
     (case body_published of
        None \<Rightarrow> (Response 400 (ErrorBody ''Published status must be a boolean!''), d)
      | Some p \<Rightarrow>
          (case findById gid d of
             None \<Rightarrow> (Response 404 (ErrorBody ''Generation not found!''), d)
           | Some gen \<Rightarrow>
               if email gen \<noteq> actor then (Response 404 (ErrorBody ''Generation not found!''), d)
               else if status gen \<noteq> Some ''completed''
               then (Response 400 (ErrorBody ''Only completed generations can be published!''), d)
               else
                 (let gen' =
                        (if p then gen\<lparr>published := p, publishedAt := Some t, publishedBy := Some actor\<rparr>
                         else gen\<lparr>published := p, publishedAt := None, publishedBy := None\<rparr>)
                  in save_and_respond gid gen'
                       (Response 200 (PublishState (published gen') (publishedAt gen') (publishedBy gen')))
                       d)))"

subsection \<open>DELETE /:id\<close>

definition deleteGeneration :: "objid \<Rightarrow> string \<Rightarrow> db \<Rightarrow> response \<times> db" where
  "deleteGeneration gid actor d =
     (case findById gid d of
        None \<Rightarrow> (Response 404 (ErrorBody ''Generation not found''), d)
      | Some gen \<Rightarrow>
          if email gen \<noteq> actor
          then (Response 403 (ErrorBody ''You can only delete your own generations''), d)
          else (Response 200 (Message ''Generation deleted successfully''), findByIdAndDelete gid d))"

section \<open>The lifecycle as a transition system\<close>

datatype request =
    PostTestcases "string option" bool world
  | GetView objid
  | GetDownload objid
  | PutContent objid "string option" time
  | PutPublish objid "bool option" time
  | DeleteById objid

text \<open>\<open>serve actor r d\<close>: the response to request \<open>r\<close> of the authenticated \<open>actor\<close>, and the store after it.\<close>

fun serve :: "string \<Rightarrow> request \<Rightarrow> db \<Rightarrow> response \<times> db" where
  "serve actor (PostTestcases k autoMode w) d = createGeneration k autoMode actor w d"
| "serve actor (GetView gid) d = (getGenerationView gid actor d, d)"
| "serve actor (GetDownload gid) d = (downloadGeneration gid actor d, d)"
| "serve actor (PutContent gid c t) d = reviseContent gid actor c t d"
| "serve actor (PutPublish gid p t) d = setPublished gid actor p t d"
| "serve actor (DeleteById gid) d = deleteGeneration gid actor d"

text \<open>The \<open>_id\<close>s of new documents are not in use.\<close>

definition fresh_ids :: "world \<Rightarrow> db \<Rightarrow> bool" where
  "fresh_ids w d = (map_of (generations d) (generationId w) = None \<and> map_of (projects d) (projectId w) = None)"

fun admissible :: "request \<Rightarrow> db \<Rightarrow> bool" where
  "admissible (PostTestcases k autoMode w) d = fresh_ids w d"
| "admissible r d = True"

text \<open>
  One step of the store. The actor is the identity the authenticator supplies, a
  non-empty e-mail address. A whole request is a step; so is the first half of
  POST /testcases (the store other requests see while the issue is fetched and the
  content generated), and so is its second half on a record that has no status yet.
\<close>

inductive step :: "db \<Rightarrow> db \<Rightarrow> bool" where
  request: "actor \<noteq> [] \<Longrightarrow> admissible r d \<Longrightarrow> step d (snd (serve actor r d))"
| accepted: "actor \<noteq> [] \<Longrightarrow> k \<noteq> [] \<Longrightarrow> fresh_ids w d \<Longrightarrow> step d (snd (create_accept k actor w d))"
| performed: "findById gid d = Some g \<Longrightarrow> status g = None \<Longrightarrow>
              step d (snd (create_perform (issueKey g) autoMode gid g w d))"

definition reachable :: "db \<Rightarrow> bool" where
  "reachable d = step\<^sup>*\<^sup>* empty_db d"

text \<open>
  \<open>stays_stored gid d d'\<close>: some steps lead from \<open>d\<close> to \<open>d'\<close>, and the record
  \<open>gid\<close> is in the store after each of them (it is not deleted on the way).
\<close>

inductive stays_stored :: "objid \<Rightarrow> db \<Rightarrow> db \<Rightarrow> bool" for gid :: objid where
  still: "stays_stored gid d d"
| later: "stays_stored gid d d' \<Longrightarrow> step d' d'' \<Longrightarrow> findById gid d'' \<noteq> None \<Longrightarrow>
          stays_stored gid d d''"

section \<open>Invariants of stored records\<close>

text \<open>The numbers of the archived versions, and the highest of them (0 when there is none).\<close>

definition archived_numbers :: "generation \<Rightarrow> nat list" where
  "archived_numbers g = map (\<lambda>v. numeric_value (versionNumber v)) (versions g)"

definition highest_archived :: "generation \<Rightarrow> nat" where
  "highest_archived g = fold max (archived_numbers g) 0"

text \<open>
  What every record of a reachable store satisfies: an owner, the mode \<open>manual\<close>, a
  status that is unset, \<open>completed\<close> or \<open>failed\<close>, a document the schema accepts, a
  result once completed, and the versions 1 up to \<open>currentVersion - 1\<close> archived in
  order.
\<close>

definition well_formed :: "generation \<Rightarrow> bool" where
  "well_formed g =
     (email g \<noteq> [] \<and> mode g = Some ''manual'' \<and>
      (status g = None \<or> status g = Some ''completed'' \<or> status g = Some ''failed'') \<and>
      validate g \<and>
      (status g = Some ''completed'' \<longrightarrow> result g \<noteq> None) \<and>
      1 \<le> currentVersion g \<and>
      map versionNumber (versions g) = map cast_String [1 ..< currentVersion g])"

definition store_ok :: "db \<Rightarrow> bool" where
  "store_ok d = (\<forall>gid g. findById gid d = Some g \<longrightarrow> well_formed g)"

section \<open>Sample requests\<close>

definition example_usage :: token_usage where
  "example_usage = \<lparr>promptTokens = 10, completionTokens = 20, totalTokens = 30\<rparr>"

text \<open>A world in which the issue is found and the generator answers at once.\<close>

definition example_world :: world where
  "example_world =
     \<lparr>clock = 1000, finished = 2000, generationId = ''g1'', projectId = ''p1'',
      jiraConfigured = True, getIssue = Success ''Login'' ''User logs in'',
      openaiConfigured = True,
      completions = (\<lambda>k messages. ApiResponse ''# A'' example_usage)\<rparr>"

text \<open>A client whose first call fails and whose every later call answers.\<close>

definition flaky_client :: client where
  "flaky_client k messages = (if k = 0 then ApiError ''timeout'' else ApiResponse ''# A'' example_usage)"

definition flaky_world :: world where
  "flaky_world = example_world\<lparr>completions := flaky_client\<rparr>"

definition unknown_issue_world :: world where
  "unknown_issue_world = example_world\<lparr>getIssue := Failure ''Issue TES-1 not found''\<rparr>"

text \<open>The store after \<open>a@x.io\<close> has generated test cases for TES-1, and the record it holds.\<close>

definition example_generation :: generation where
  "example_generation =
     \<lparr>issueKey = ''TES-1'', email = ''a@x.io'', project = None, mode = Some ''manual'',
      status = Some ''completed'', createdAt = 1000, startedAt = Some 1000,
      completedAt = Some 2000, tokenUsage = Some example_usage,
      result = Some \<lparr>content = ''# A'', filename = Some ''TES-1_testcases_g1.md''\<rparr>,
      error = None, published = False, publishedAt = None, publishedBy = None,
      versions = [], currentVersion = 1\<rparr>"

definition example_db :: db where
  "example_db = snd (createGeneration (Some ''TES-1'') False ''a@x.io'' example_world empty_db)"

text \<open>The sample store after its owner has revised the content to \<open># B\<close>.\<close>

definition revised_generation :: generation where
  "revised_generation =
     example_generation
       \<lparr>result := Some \<lparr>content = ''# B'', filename = Some ''TES-1_testcases_g1.md''\<rparr>,
        versions := [\<lparr>versionNumber = ''1'', version.content = ''# A'', releaseDate = 3000,
                      updatedBy = ''a@x.io'', version_notes = None\<rparr>],
        currentVersion := 2\<rparr>"

definition revised_db :: db where
  "revised_db = snd (reviseContent ''g1'' ''a@x.io'' (Some ''# B'') 3000 example_db)"

text \<open>The revised store after its owner has published the generation.\<close>

definition published_db :: db where
  "published_db = snd (setPublished ''g1'' ''a@x.io'' (Some True) 4000 revised_db)"

text \<open>The store after the same request when the issue does not exist.\<close>

definition failed_db :: db where
  "failed_db = snd (createGeneration (Some ''TES-1'') False ''a@x.io'' unknown_issue_world empty_db)"

section \<open>Auxiliary facts\<close>

subsection \<open>Decimal texts\<close>

lemma digit_value_digit_char: "d < 10 \<Longrightarrow> digit_value (digit_char d) = d"
proof -
  have "\<forall>x \<in> set [0 ..< 10]. digit_value (digit_char x) = x"
    by (simp add: upt_rec digit_value_def digit_char_def)
  moreover assume "d < 10"
  ultimately show ?thesis by simp
qed

lemma numeric_value_snoc: "numeric_value (s @ [c]) = 10 * numeric_value s + digit_value c"
  by (simp add: numeric_value_def)

lemma numeric_value_cast_String: "numeric_value (cast_String n) = n"
proof (induction n rule: cast_String.induct)
  case (1 n)
  show ?case
  proof (cases "n < 10")
    case True
    then show ?thesis
      by (subst cast_String.simps) (simp add: digit_value_digit_char numeric_value_def)
  next
    case False
    then have "numeric_value (cast_String (n div 10)) = n div 10"
      using 1 by simp
    with False show ?thesis
      by (subst cast_String.simps) (simp add: numeric_value_snoc digit_value_digit_char)
  qed
qed

lemma cast_String_nonempty: "cast_String n \<noteq> []"
  by (subst cast_String.simps) simp

lemma versionExists_never:
  "list_ex (\<lambda>v. strict_equals (JString (versionNumber v)) (JNumber n)) vs = False"
  by (simp add: strict_equals_def list_ex_iff)

subsection \<open>The store\<close>

lemma findById_save:
  "save gid doc d = Inr d' \<Longrightarrow> findById gid' d' = (if gid' = gid then Some doc else findById gid' d)"
  by (auto simp: save_def findById_def update_conv' split: if_splits)

lemma save_Inr_validate: "save gid doc d = Inr d' \<Longrightarrow> validate doc"
  by (auto simp: save_def split: if_splits)

lemma save_projects: "save gid doc d = Inr d' \<Longrightarrow> projects d' = projects d"
  by (auto simp: save_def split: if_splits)

lemma findById_save_and_respond:
  "findById gid' (snd (save_and_respond gid doc r d)) =
     (if gid' = gid \<and> validate doc then Some doc else findById gid' d)"
  by (auto simp: save_and_respond_def save_def findById_def update_conv' split: sum.splits)

lemma findOrCreateProject_generations:
  "generations (snd (findOrCreateProject key u f t d)) = generations d"
  by (auto simp: findOrCreateProject_def save_project_def Let_def split: option.splits sum.splits prod.splits)

lemma validate_new_Generation: "validate (new_Generation k a p ''manual'' t)"
  by (simp add: validate_def new_Generation_def mode_enum_def)

lemma create_accept_fst:
  "fst (create_accept k actor w d) = Inr (new_Generation k actor None ''manual'' (clock w))"
  by (auto simp: create_accept_def Let_def save_def validate_new_Generation split: option.splits prod.splits sum.splits)

lemma create_accept_generations:
  "generations (snd (create_accept k actor w d)) =
     AList.update (generationId w) (new_Generation k actor None ''manual'' (clock w)) (generations d)"
  using findOrCreateProject_generations
  by (auto simp: create_accept_def Let_def save_def validate_new_Generation split: option.splits prod.splits sum.splits)
    (metis snd_conv)+

lemma findById_create_accept:
  "findById gid (snd (create_accept k actor w d)) =
     (if gid = generationId w then Some (new_Generation k actor None ''manual'' (clock w)) else findById gid d)"
  by (simp add: findById_def create_accept_generations update_conv')

subsection \<open>Creation\<close>

lemma save_and_respond_stored:
  assumes "findById gid' (snd (save_and_respond gid doc r d)) = Some g'"
  shows "findById gid' d = Some g' \<or> (gid' = gid \<and> validate g' \<and> g' = doc)"
  using assms by (auto simp: findById_save_and_respond split: if_splits)

lemma create_perform_stored:
  assumes "findById gid' (snd (create_perform k am gid g w d)) = Some g'"
  shows "findById gid' d = Some g' \<or>
         (gid' = gid \<and> validate g' \<and>
           ((\<exists>err. g' = g\<lparr>status := Some ''failed'', error := Some err, completedAt := Some (finished w)\<rparr>) \<or>
            (\<exists>usage md. g' = g\<lparr>status := Some ''completed'', completedAt := Some (finished w),
                                tokenUsage := Some usage, result := Some md,
                                currentVersion := 1, versions := []\<rparr>)))"
proof (cases "jiraConfigured w")
  case False
  with assms show ?thesis by (simp add: create_perform_def)
next
  case True
  show ?thesis
  proof (cases "getIssue w")
    case (Failure err)
    with True assms show ?thesis
      by (auto simp: create_perform_def dest!: save_and_respond_stored)
  next
    case (Success summary description)
    show ?thesis
    proof (cases "call_generator w (''Title: '' @ summary @ ''\<newline>\<newline>Description: '' @ description) k am")
      case (Thrown m)
      with True Success assms show ?thesis
        by (auto simp: create_perform_def dest!: save_and_respond_stored)
    next
      case (Returned r)
      then obtain c usage where "r = Generated c usage" by (cases r) auto
      with Returned True Success assms show ?thesis
        by (auto simp: create_perform_def Let_def dest!: save_and_respond_stored)
    qed
  qed
qed

lemma well_formed_failed:
  assumes "well_formed g" "validate g'"
    and "g' = g\<lparr>status := Some ''failed'', error := Some err, completedAt := Some t\<rparr>"
  shows "well_formed g'"
  using assms by (simp add: well_formed_def)

lemma well_formed_completed:
  assumes "well_formed g" "validate g'"
    and "g' = g\<lparr>status := Some ''completed'', completedAt := Some t, tokenUsage := Some usage,
                  result := Some md, currentVersion := 1, versions := []\<rparr>"
  shows "well_formed g'"
  using assms by (simp add: well_formed_def)

lemma well_formed_new_Generation:
  "actor \<noteq> [] \<Longrightarrow> well_formed (new_Generation k actor None ''manual'' t)"
  using validate_new_Generation [of k actor None t]
  by (simp add: well_formed_def) (simp add: new_Generation_def)

lemma store_ok_create_accept:
  assumes "store_ok d" "actor \<noteq> []"
  shows "store_ok (snd (create_accept k actor w d))"
  using assms by (auto simp: store_ok_def findById_create_accept well_formed_new_Generation split: if_splits)

lemma store_okD: "store_ok d \<Longrightarrow> findById gid d = Some g \<Longrightarrow> well_formed g"
  by (simp add: store_ok_def)

lemma store_ok_create_perform:
  assumes "store_ok d" "well_formed g"
  shows "store_ok (snd (create_perform k am gid g w d))"
  unfolding store_ok_def
proof (intro allI impI)
  fix gid' g'
  assume "findById gid' (snd (create_perform k am gid g w d)) = Some g'"
  from create_perform_stored [OF this] consider
    (old) "findById gid' d = Some g'"
  | (failed) err where "validate g'"
      "g' = g\<lparr>status := Some ''failed'', error := Some err, completedAt := Some (finished w)\<rparr>"
  | (completed) usage md where "validate g'"
      "g' = g\<lparr>status := Some ''completed'', completedAt := Some (finished w),
              tokenUsage := Some usage, result := Some md,
              currentVersion := 1, versions := []\<rparr>"
    by blast
  then show "well_formed g'"
  proof cases
    case old
    with assms(1) show ?thesis by (rule store_okD)
  next
    case failed
    with assms(2) show ?thesis by (rule well_formed_failed)
  next
    case completed
    with assms(2) show ?thesis by (rule well_formed_completed)
  qed
qed

subsection \<open>Revision\<close>

lemma trim_Nil: "trim [] = []"
  by (simp add: trim_def)

lemma revise_document_fields:
  "email (revise_document g actor c t) = email g"
  "mode (revise_document g actor c t) = mode g"
  "status (revise_document g actor c t) = status g"
  "current_content (revise_document g actor c t) = c"
  by (auto simp: revise_document_def Let_def current_content_def split: option.splits)

lemma revise_document_same:
  "current_content g = c \<Longrightarrow> result g \<noteq> None \<Longrightarrow> revise_document g actor c t = g"
  by (auto simp: revise_document_def Let_def current_content_def)

lemma revise_document_archives:
  assumes "current_content g \<noteq> []" "current_content g \<noteq> c" "1 \<le> currentVersion g"
  shows "versions (revise_document g actor c t) =
           versions g @ [\<lparr>versionNumber = cast_String (currentVersion g),
                          version.content = current_content g, releaseDate = t,
                          updatedBy = actor, version_notes = None\<rparr>]"
    and "currentVersion (revise_document g actor c t) = currentVersion g + 1"
  using assms by (simp_all add: revise_document_def Let_def versionExists_never)

lemma revise_document_keeps:
  assumes "current_content g = [] \<or> current_content g = c"
  shows "versions (revise_document g actor c t) = versions g"
    and "currentVersion (revise_document g actor c t) = currentVersion g"
  using assms by (auto simp: revise_document_def Let_def)

lemma well_formed_revise_document:
  assumes "well_formed g" "status g = Some ''completed''" "email g = actor" "c \<noteq> []"
  shows "well_formed (revise_document g actor c t)"
proof -
  from assms obtain m where m: "result g = Some m" and vm: "validate_markdown m"
    by (auto simp: well_formed_def validate_def)
  have cv: "1 \<le> currentVersion g" using assms by (simp add: well_formed_def)
  have actor: "actor \<noteq> []" using assms by (auto simp: well_formed_def)
  show ?thesis
  proof (cases "current_content g = c")
    case True
    then have "revise_document g actor c t = g"
      using m by (simp add: revise_document_same)
    with assms show ?thesis by simp
  next
    case False
    have ne: "current_content g \<noteq> []"
      using m vm by (simp add: current_content_def validate_markdown_def)
    note arch = revise_document_archives [OF ne False cv, of actor t]
    have res: "result (revise_document g actor c t) = Some (m\<lparr>content := c\<rparr>)"
      using m by (simp add: revise_document_def Let_def)
    have "validate (revise_document g actor c t)"
      using assms(1) ne actor vm \<open>c \<noteq> []\<close>
      by (simp add: validate_def well_formed_def arch res revise_document_fields
            validate_version_def validate_markdown_def cast_String_nonempty mode_enum_def status_enum_def)
    moreover have "map versionNumber (versions (revise_document g actor c t)) =
        map cast_String [1 ..< currentVersion (revise_document g actor c t)]"
      using assms(1) cv by (simp add: arch well_formed_def)
    ultimately show ?thesis
      using assms by (simp add: well_formed_def revise_document_fields res arch)
  qed
qed

lemma findById_reviseContent:
  assumes "findById gid' (snd (reviseContent gid actor body t d)) = Some g'"
  shows "findById gid' d = Some g' \<or>
         (gid' = gid \<and> (\<exists>g c. findById gid d = Some g \<and> body = Some c \<and> c \<noteq> [] \<and> email g = actor \<and>
             status g = Some ''completed'' \<and> g' = revise_document g actor c t))"
  using assms trim_Nil
  by (auto simp: reviseContent_def findById_save_and_respond Let_def split: option.splits if_splits)

lemma store_ok_reviseContent:
  assumes "store_ok d"
  shows "store_ok (snd (reviseContent gid actor body t d))"
  unfolding store_ok_def
proof (intro allI impI)
  fix gid' g'
  assume "findById gid' (snd (reviseContent gid actor body t d)) = Some g'"
  from findById_reviseContent [OF this] consider
    (old) "findById gid' d = Some g'"
  | (revised) g c where "findById gid d = Some g" "c \<noteq> []" "email g = actor"
      "status g = Some ''completed''" "g' = revise_document g actor c t"
    by blast
  then show "well_formed g'"
  proof cases
    case old
    with assms show ?thesis by (rule store_okD)
  next
    case revised
    from assms revised(1) have "well_formed g" by (rule store_okD)
    with revised show ?thesis by (simp add: well_formed_revise_document)
  qed
qed

subsection \<open>Publication and deletion\<close>

lemma findById_setPublished:
  assumes "findById gid' (snd (setPublished gid actor body t d)) = Some g'"
  shows "findById gid' d = Some g' \<or>
         (gid' = gid \<and> (\<exists>g p. findById gid d = Some g \<and> body = Some p \<and> email g = actor \<and>
             status g = Some ''completed'' \<and>
             g' = (if p then g\<lparr>published := p, publishedAt := Some t, publishedBy := Some actor\<rparr>
                   else g\<lparr>published := p, publishedAt := None, publishedBy := None\<rparr>)))"
  using assms
  by (auto simp: setPublished_def findById_save_and_respond Let_def split: option.splits if_splits)

lemma well_formed_published:
  "well_formed g \<Longrightarrow> well_formed (g\<lparr>published := p, publishedAt := a, publishedBy := b\<rparr>)"
  by (auto simp: well_formed_def validate_def)

lemma store_ok_setPublished:
  assumes "store_ok d"
  shows "store_ok (snd (setPublished gid actor body t d))"
  unfolding store_ok_def
proof (intro allI impI)
  fix gid' g'
  assume "findById gid' (snd (setPublished gid actor body t d)) = Some g'"
  from findById_setPublished [OF this] consider
    (old) "findById gid' d = Some g'"
  | (set) g p where "findById gid d = Some g"
      "g' = (if p then g\<lparr>published := p, publishedAt := Some t, publishedBy := Some actor\<rparr>
             else g\<lparr>published := p, publishedAt := None, publishedBy := None\<rparr>)"
    by blast
  then show "well_formed g'"
  proof cases
    case old
    with assms show ?thesis by (rule store_okD)
  next
    case set
    from assms set(1) have "well_formed g" by (rule store_okD)
    with set(2) show ?thesis by (simp add: well_formed_published)
  qed
qed

lemma findById_deleteGeneration:
  "findById gid' (snd (deleteGeneration gid actor d)) = Some g' \<Longrightarrow> findById gid' d = Some g'"
  by (auto simp: deleteGeneration_def findById_def findByIdAndDelete_def delete_conv'
           split: option.splits if_splits)

lemma store_ok_deleteGeneration:
  "store_ok d \<Longrightarrow> store_ok (snd (deleteGeneration gid actor d))"
  unfolding store_ok_def by (blast dest: findById_deleteGeneration)

subsection \<open>Steps preserve the invariant\<close>

lemma createGeneration_cases:
  "snd (createGeneration body am actor w d) = d \<or>
   (\<exists>k. body = Some k \<and> k \<noteq> [] \<and>
      snd (createGeneration body am actor w d) =
        snd (create_perform k am (generationId w) (new_Generation k actor None ''manual'' (clock w)) w
               (snd (create_accept k actor w d))))"
proof (cases body)
  case None
  then show ?thesis by (simp add: createGeneration_def)
next
  case (Some k)
  show ?thesis
  proof (cases "k = []")
    case True
    with Some show ?thesis by (simp add: createGeneration_def)
  next
    case False
    obtain r d1 where eq: "create_accept k actor w d = (r, d1)" by (cases "create_accept k actor w d")
    with create_accept_fst [of k actor w d]
    have "r = Inr (new_Generation k actor None ''manual'' (clock w))" by simp
    with eq Some False show ?thesis by (simp add: createGeneration_def)
  qed
qed

lemma store_ok_createGeneration:
  assumes "store_ok d" "actor \<noteq> []"
  shows "store_ok (snd (createGeneration body am actor w d))"
  using createGeneration_cases [of body am actor w d] assms
  by (auto simp: store_ok_create_perform store_ok_create_accept well_formed_new_Generation)

lemma store_ok_serve:
  assumes "store_ok d" "actor \<noteq> []"
  shows "store_ok (snd (serve actor r d))"
  using assms
  by (cases r)
    (simp_all add: store_ok_createGeneration store_ok_reviseContent store_ok_setPublished
       store_ok_deleteGeneration)

lemma step_store_ok: "step d d' \<Longrightarrow> store_ok d \<Longrightarrow> store_ok d'"
proof (induction rule: step.induct)
  case (request actor r d)
  then show ?case by (simp add: store_ok_serve)
next
  case (accepted actor k w d)
  then show ?case by (simp add: store_ok_create_accept)
next
  case (performed gid d g autoMode w)
  then have "well_formed g" by (simp add: store_okD)
  with performed show ?case by (simp add: store_ok_create_perform)
qed

lemma store_ok_empty: "store_ok empty_db"
  by (simp add: store_ok_def empty_db_def findById_def)

lemma reachable_store_ok: "reachable d \<Longrightarrow> store_ok d"
  unfolding reachable_def
  by (induction rule: rtranclp_induct) (simp_all add: store_ok_empty step_store_ok)

lemma reachable_empty: "reachable empty_db"
  by (simp add: reachable_def)

lemma reachable_step: "reachable d \<Longrightarrow> step d d' \<Longrightarrow> reachable d'"
  by (simp add: reachable_def)

subsection \<open>The sample store\<close>

lemma example_db_eq:
  "example_db =
     \<lparr>generations = [(''g1'', example_generation)],
      projects = [(''p1'', \<lparr>projectKey = ''TES'', firstGeneratedAt = Some 1000, lastGeneratedAt = Some 1000,
                     totalGenerations = 0, createdBy = Some ''a@x.io''\<rparr>)]\<rparr>"
  by code_simp

lemma findById_example_db: "findById ''g1'' example_db = Some example_generation"
  by (simp add: example_db_eq findById_def)

lemma fresh_ids_example: "fresh_ids example_world empty_db"
  by (simp add: fresh_ids_def empty_db_def)

lemma reachable_example_db: "reachable example_db"
proof -
  have "step empty_db (snd (serve ''a@x.io'' (PostTestcases (Some ''TES-1'') False example_world) empty_db))"
    by (rule step.request) (simp_all add: fresh_ids_example)
  then have "step empty_db example_db" by (simp add: example_db_def)
  with reachable_empty show ?thesis by (rule reachable_step)
qed

section \<open>Revising content\<close>

text \<open>
  Claim C4. For a completed generation, PUT /:id/content with content identical to the
  current \<open>result.markdown.content\<close> leaves \<open>currentVersion\<close> and \<open>versions\<close>
  as they were: no version bump and no archival. The whole store is left as it was.
\<close>

theorem revise_identical_content_is_noop:
  assumes "findById gid d = Some g" and "status g = Some ''completed''"
    and "current_content g = c"
  shows "snd (reviseContent gid actor (Some c) t d) = d \<and>
         (\<exists>g'. findById gid (snd (reviseContent gid actor (Some c) t d)) = Some g' \<and>
               currentVersion g' = currentVersion g \<and> versions g' = versions g \<and>
               current_content g' = c)"
proof -
  have "snd (reviseContent gid actor (Some c) t d) = d"
  proof (cases "email g = actor \<and> trim c \<noteq> []")
    case False
    with assms(1) show ?thesis by (auto simp: reviseContent_def)
  next
    case True
    then have "c \<noteq> []" using trim_Nil by auto
    with assms(3) have "result g \<noteq> None"
      by (cases "result g") (auto simp: current_content_def)
    with assms(3) have same: "revise_document g actor c t = g" by (rule revise_document_same)
    have "AList.update gid g (generations d) = generations d"
      using assms(1) by (simp add: findById_def update_triv)
    with True assms(1,2) same show ?thesis
      by (simp add: reviseContent_def Let_def save_and_respond_def save_def)
  qed
  with assms show ?thesis by simp
qed

text \<open>The theorem at the sample store: revising TES-1 to the content it already has.\<close>

theorem revise_identical_content_is_noop_witness:
  "findById ''g1'' example_db = Some example_generation \<and>
   status example_generation = Some ''completed'' \<and>
   current_content example_generation = ''# A'' \<and>
   snd (reviseContent ''g1'' ''a@x.io'' (Some ''# A'') 3000 example_db) = example_db \<and>
   (\<exists>g'. findById ''g1'' (snd (reviseContent ''g1'' ''a@x.io'' (Some ''# A'') 3000 example_db)) = Some g' \<and>
         currentVersion g' = currentVersion example_generation \<and>
         versions g' = versions example_generation \<and> current_content g' = ''# A'')"
proof -
  have h1: "findById ''g1'' example_db = Some example_generation" by (rule findById_example_db)
  have h2: "status example_generation = Some ''completed''" by (simp add: example_generation_def)
  have h3: "current_content example_generation = ''# A''"
    by (simp add: example_generation_def current_content_def)
  from revise_identical_content_is_noop [OF h1 h2 h3, of "''a@x.io''" 3000] h1 h2 h3
  show ?thesis by simp
qed






section \<open>The version invariant\<close>

lemma revised_db_eq: "findById ''g1'' revised_db = Some revised_generation"
  by code_simp

lemma reachable_revised_db: "reachable revised_db"
proof -
  have "step example_db (snd (serve ''a@x.io'' (PutContent ''g1'' (Some ''# B'') 3000) example_db))"
    by (rule step.request) simp_all
  then have "step example_db revised_db" by (simp add: revised_db_def)
  with reachable_example_db show ?thesis by (rule reachable_step)
qed

lemma fold_max_upt: "fold max [1 ..< Suc n] 0 = n"
  by (induction n) simp_all

lemma archived_numbers_well_formed:
  assumes "well_formed g"
  shows "archived_numbers g = [1 ..< currentVersion g]"
proof -
  have "archived_numbers g = map numeric_value (map versionNumber (versions g))"
    by (simp add: archived_numbers_def)
  also have "\<dots> = map numeric_value (map cast_String [1 ..< currentVersion g])"
    using assms by (simp add: well_formed_def)
  also have "\<dots> = [1 ..< currentVersion g]"
    by (simp add: numeric_value_cast_String map_idI)
  finally show ?thesis .
qed

text \<open>
  Claim C2. In every reachable store (every state that the operations, among them
  PUT /:id/content, lead to from the empty store), a generation with status
  \<open>completed\<close> has no two archived versions with the same \<open>versionNumber\<close>, every
  archived number is strictly below \<open>currentVersion\<close>, and \<open>currentVersion\<close> is the
  highest archived number plus 1 (1 when nothing is archived). The stored
  \<open>versionNumber\<close>s are the decimal texts of those numbers.
\<close>

theorem versions_distinct_and_below_current:
  assumes "reachable d" and "findById gid d = Some g" and "status g = Some ''completed''"
  shows "distinct (map versionNumber (versions g)) \<and>
         map versionNumber (versions g) = map cast_String (archived_numbers g) \<and>
         distinct (archived_numbers g) \<and>
         (\<forall>n \<in> set (archived_numbers g). n < currentVersion g) \<and>
         currentVersion g = highest_archived g + 1"
proof -
  from assms(1,2) have wf: "well_formed g" by (blast dest: reachable_store_ok store_okD)
  then have an: "archived_numbers g = [1 ..< currentVersion g]"
    by (rule archived_numbers_well_formed)
  from wf have vs: "map versionNumber (versions g) = map cast_String [1 ..< currentVersion g]"
    and cv: "1 \<le> currentVersion g"
    by (simp_all add: well_formed_def)
  have "inj_on cast_String (set [1 ..< currentVersion g])"
    by (rule inj_on_inverseI [where g = numeric_value]) (rule numeric_value_cast_String)
  then have "distinct (map versionNumber (versions g))"
    by (simp add: vs distinct_map)
  moreover from cv obtain n where n: "currentVersion g = Suc n" by (cases "currentVersion g") auto
  then have "highest_archived g = n"
    using fold_max_upt [of n] by (simp add: highest_archived_def an)
  ultimately show ?thesis
    using n by (simp add: an vs)
qed

text \<open>The theorem at the sample store after one revision.\<close>

theorem versions_distinct_and_below_current_witness:
  "reachable revised_db \<and> findById ''g1'' revised_db = Some revised_generation \<and>
   status revised_generation = Some ''completed'' \<and>
   distinct (map versionNumber (versions revised_generation)) \<and>
   archived_numbers revised_generation = [1] \<and>
   currentVersion revised_generation = 2 \<and>
   currentVersion revised_generation = highest_archived revised_generation + 1"
proof -
  have h3: "status revised_generation = Some ''completed''"
    by (simp add: revised_generation_def example_generation_def)
  have an: "archived_numbers revised_generation = [1]"
    by (simp add: archived_numbers_def revised_generation_def numeric_value_def digit_value_def upt_rec)
  have cv: "currentVersion revised_generation = 2"
    by (simp add: revised_generation_def)
  from versions_distinct_and_below_current [OF reachable_revised_db revised_db_eq h3]
    reachable_revised_db revised_db_eq h3 an cv
  show ?thesis by simp
qed

section \<open>The status field\<close>

lemma status_kept_createGeneration:
  assumes "findById gid d = Some g" and "fresh_ids w d"
    and "findById gid (snd (createGeneration body am actor w d)) = Some g'"
  shows "g' = g"
proof -
  from assms(1,2) have ne: "gid \<noteq> generationId w"
    by (auto simp: fresh_ids_def findById_def)
  from createGeneration_cases [of body am actor w d] show ?thesis
  proof
    assume "snd (createGeneration body am actor w d) = d"
    with assms(1,3) show ?thesis by simp
  next
    assume "\<exists>k. body = Some k \<and> k \<noteq> [] \<and>
      snd (createGeneration body am actor w d) =
        snd (create_perform k am (generationId w) (new_Generation k actor None ''manual'' (clock w)) w
               (snd (create_accept k actor w d)))"
    then obtain k where
      "findById gid (snd (create_perform k am (generationId w)
          (new_Generation k actor None ''manual'' (clock w)) w (snd (create_accept k actor w d)))) = Some g'"
      using assms(3) by auto
    from create_perform_stored [OF this] ne
    have "findById gid (snd (create_accept k actor w d)) = Some g'" by blast
    with ne assms(1) show ?thesis by (simp add: findById_create_accept)
  qed
qed

lemma status_kept_serve:
  assumes "findById gid d = Some g" and "admissible r d"
    and "findById gid (snd (serve actor r d)) = Some g'"
  shows "status g' = status g"
proof (cases r)
  case (PostTestcases body am w)
  with assms(2) have fresh: "fresh_ids w d" by simp
  from PostTestcases assms(3)
  have "findById gid (snd (createGeneration body am actor w d)) = Some g'" by simp
  from status_kept_createGeneration [OF assms(1) fresh this] show ?thesis by simp
next
  case (GetView x)
  with assms show ?thesis by simp
next
  case (GetDownload x)
  with assms show ?thesis by simp
next
  case (PutContent x body t)
  with assms(3) have "findById gid (snd (reviseContent x actor body t d)) = Some g'" by simp
  from findById_reviseContent [OF this] consider
    (old) "findById gid d = Some g'"
  | (revised) g0 c where "findById gid d = Some g0" "g' = revise_document g0 actor c t"
    by blast
  then show ?thesis
  proof cases
    case old
    with assms(1) show ?thesis by simp
  next
    case revised
    with assms(1) show ?thesis by (simp add: revise_document_fields)
  qed
next
  case (PutPublish x body t)
  with assms(3) have "findById gid (snd (setPublished x actor body t d)) = Some g'" by simp
  from findById_setPublished [OF this] consider
    (old) "findById gid d = Some g'"
  | (set) g0 p where "findById gid d = Some g0"
      "g' = (if p then g0\<lparr>published := p, publishedAt := Some t, publishedBy := Some actor\<rparr>
             else g0\<lparr>published := p, publishedAt := None, publishedBy := None\<rparr>)"
    by blast
  then show ?thesis
  proof cases
    case old
    with assms(1) show ?thesis by simp
  next
    case set
    with assms(1) show ?thesis by simp
  qed
next
  case (DeleteById x)
  with assms(3) have "findById gid (snd (deleteGeneration x actor d)) = Some g'" by simp
  from findById_deleteGeneration [OF this] assms(1) show ?thesis by simp
qed

lemma status_kept_step:
  assumes "step d d'" and "findById gid d = Some g" and "status g \<noteq> None"
    and "findById gid d' = Some g'"
  shows "status g' = status g"
  using assms
proof (induction rule: step.induct)
  case (request actor r d)
  then show ?case by (blast dest: status_kept_serve)
next
  case (accepted actor k w d)
  then have "gid \<noteq> generationId w" by (auto simp: fresh_ids_def findById_def)
  with accepted show ?case by (simp add: findById_create_accept)
next
  case (performed x d g0 autoMode w)
  from performed(3,4) performed(1,2) have ne: "gid \<noteq> x" by auto
  from create_perform_stored [OF performed(5)] ne have "findById gid d = Some g'" by blast
  with performed(3) show ?case by simp
qed

lemma published_db_eq:
  "findById ''g1'' published_db =
     Some (revised_generation\<lparr>published := True, publishedAt := Some 4000,
                                publishedBy := Some ''a@x.io''\<rparr>)"
  by code_simp

text \<open>
  Claim C7. Take a generation whose status is \<open>completed\<close> or \<open>failed\<close>, and any
  sequence of steps of the store (whole requests of any kind: revise, publish-toggle,
  view, download, delete, the creation of other records; and the completion of records
  that have no status yet) after which the generation is still stored. Its status is
  then what it was: a failed generation is never returned to an unset status, and the
  status of a completed one never changes.
\<close>

theorem status_never_changes_once_set:
  assumes "stays_stored gid d d'" and "findById gid d = Some g"
    and "status g = Some ''completed'' \<or> status g = Some ''failed''"
  shows "\<exists>g'. findById gid d' = Some g' \<and> status g' = status g"
  using assms
proof (induction rule: stays_stored.induct)
  case (still d)
  then show ?case by simp
next
  case (later d d' d'')
  then obtain g' where g': "findById gid d' = Some g'" "status g' = status g" by blast
  from later(3) obtain g'' where g'': "findById gid d'' = Some g''" by auto
  from later(6) g'(2) have "status g' \<noteq> None" by auto
  from status_kept_step [OF later(2) g'(1) this g''] g'(2) g'' show ?case by simp
qed

text \<open>The theorem at the sample store, revised and then published: the record stays \<open>completed\<close>.\<close>

theorem status_never_changes_once_set_witness:
  "stays_stored ''g1'' example_db published_db \<and>
   findById ''g1'' example_db = Some example_generation \<and>
   status example_generation = Some ''completed'' \<and>
   (\<exists>g'. findById ''g1'' published_db = Some g' \<and> status g' = Some ''completed'')"
proof -
  have "step example_db (snd (serve ''a@x.io'' (PutContent ''g1'' (Some ''# B'') 3000) example_db))"
    by (rule step.request) simp_all
  then have s1: "step example_db revised_db" by (simp add: revised_db_def)
  have "step revised_db (snd (serve ''a@x.io'' (PutPublish ''g1'' (Some True) 4000) revised_db))"
    by (rule step.request) simp_all
  then have s2: "step revised_db published_db" by (simp add: published_db_def)
  have "stays_stored ''g1'' example_db revised_db"
    using stays_stored.still s1 by (rule stays_stored.later) (simp add: revised_db_eq)
  then have h1: "stays_stored ''g1'' example_db published_db"
    using s2 by (rule stays_stored.later) (simp add: published_db_eq)
  have h3: "status example_generation = Some ''completed''" by (simp add: example_generation_def)
  from status_never_changes_once_set [OF h1 findById_example_db disjI1 [OF h3]]
    h1 findById_example_db h3
  show ?thesis by simp
qed

section \<open>Access policy\<close>

lemma failed_db_eq:
  "findById ''g1'' failed_db =
     Some ((new_Generation ''TES-1'' ''a@x.io'' None ''manual'' 1000)
             \<lparr>status := Some ''failed'', error := Some ''Issue TES-1 not found'',
              completedAt := Some 2000\<rparr>)"
  by code_simp

text \<open>
  Claim C5, as the code has it. GET /:id/view of a stored generation: for the owner it
  succeeds exactly when the status is \<open>completed\<close>, whatever \<open>published\<close> is, and
  answers 400 "Generation not completed yet" otherwise; for any other actor it succeeds
  exactly when the generation is published and completed, and answers 404 "Not found!"
  otherwise.
\<close>

theorem view_access:
  assumes "findById gid d = Some g"
  shows "(email g = actor \<longrightarrow>
            (status g = Some ''completed'' \<longrightarrow> code (getGenerationView gid actor d) = 200) \<and>
            (status g \<noteq> Some ''completed'' \<longrightarrow>
               getGenerationView gid actor d = Response 400 (ErrorBody ''Generation not completed yet''))) \<and>
         (email g \<noteq> actor \<longrightarrow>
            (published g \<and> status g = Some ''completed'' \<longrightarrow> code (getGenerationView gid actor d) = 200) \<and>
            (\<not> (published g \<and> status g = Some ''completed'') \<longrightarrow>
               getGenerationView gid actor d = Response 404 (ErrorBody ''Not found!'')))"
  using assms by (simp add: getGenerationView_def Let_def)

text \<open>The theorem at the sample store: its owner may view the unpublished record, another actor may not.\<close>

theorem view_access_witness:
  "findById ''g1'' example_db = Some example_generation \<and>
   email example_generation = ''a@x.io'' \<and> status example_generation = Some ''completed'' \<and>
   code (getGenerationView ''g1'' ''a@x.io'' example_db) = 200 \<and>
   email example_generation \<noteq> ''b@y.io'' \<and> \<not> published example_generation \<and>
   getGenerationView ''g1'' ''b@y.io'' example_db = Response 404 (ErrorBody ''Not found!'')"
proof -
  have h: "email example_generation = ''a@x.io''" "status example_generation = Some ''completed''"
    "\<not> published example_generation"
    by (simp_all add: example_generation_def)
  from view_access [OF findById_example_db, of "''a@x.io''"]
    view_access [OF findById_example_db, of "''b@y.io''"] findById_example_db h
  show ?thesis by simp
qed

text \<open>
  The claim as stated fails: the owner of a failed generation is answered 400, which is
  neither the view nor "not found".
\<close>

theorem view_access_counterexample:
  "map_option email (findById ''g1'' failed_db) = Some ''a@x.io'' \<and>
   map_option status (findById ''g1'' failed_db) = Some (Some ''failed'') \<and>
   getGenerationView ''g1'' ''a@x.io'' failed_db = Response 400 (ErrorBody ''Generation not completed yet'')"
  by (simp add: failed_db_eq getGenerationView_def Let_def new_Generation_def)




section \<open>Creating a generation\<close>

lemma create_perform_keeps_mode:
  assumes "findById gid d = Some g"
  shows "\<exists>g'. findById gid (snd (create_perform k am gid g w d)) = Some g' \<and> mode g' = mode g"
proof (cases "jiraConfigured w")
  case False
  with assms show ?thesis by (simp add: create_perform_def)
next
  case True
  show ?thesis
  proof (cases "getIssue w")
    case (Failure err)
    with True assms show ?thesis
      by (simp add: create_perform_def findById_save_and_respond)
  next
    case (Success summary description)
    show ?thesis
    proof (cases "call_generator w (''Title: '' @ summary @ ''\<newline>\<newline>Description: '' @ description) k am")
      case (Thrown m)
      with True Success assms show ?thesis
        by (simp add: create_perform_def findById_save_and_respond)
    next
      case (Returned r)
      then obtain c usage where "r = Generated c usage" by (cases r) auto
      with Returned True Success assms show ?thesis
        by (simp add: create_perform_def Let_def findById_save_and_respond)
    qed
  qed
qed

lemma createGeneration_accept_perform:
  "k \<noteq> [] \<Longrightarrow>
   createGeneration (Some k) am actor w d =
     create_perform k am (generationId w) (new_Generation k actor None ''manual'' (clock w)) w
       (snd (create_accept k actor w d))"
  using create_accept_fst [of k actor w d]
  by (cases "create_accept k actor w d") (simp add: createGeneration_def)

lemma create_accept_ignores_outcomes:
  "create_accept k actor (w\<lparr>getIssue := issue, completions := cl\<rparr>) d = create_accept k actor w d"
  by (simp add: create_accept_def Let_def split: prod.splits option.splits sum.splits)

lemma not_validate_pending: "\<not> validate (g\<lparr>status := Some ''pending''\<rparr>)"
  by (simp add: validate_def status_enum_def)

text \<open>
  Claim C1, as the code has it. POST /testcases saves the new record before the issue
  is fetched and the generator called (the saved record does not depend on what they
  answer, and the rest of the handler runs on the store that holds it), with
  \<open>startedAt\<close> the creation time and with no status: the field is unset. The schema admits only \<open>completed\<close> and \<open>failed\<close>, so a document with status
  \<open>pending\<close> is refused by \<open>save\<close>. In every reachable store the status of every
  generation is unset, \<open>completed\<close> or \<open>failed\<close>.
\<close>

theorem created_without_status:
  assumes "reachable d"
  shows "(\<forall>gid g. findById gid d = Some g \<longrightarrow>
            status g = None \<or> status g = Some ''completed'' \<or> status g = Some ''failed'') \<and>
         (\<forall>k actor w. \<exists>g. fst (create_accept k actor w d) = Inr g \<and>
            findById (generationId w) (snd (create_accept k actor w d)) = Some g \<and>
            status g = None \<and> startedAt g = Some (clock w) \<and>
            (\<forall>autoMode. k \<noteq> [] \<longrightarrow>
               createGeneration (Some k) autoMode actor w d =
                 create_perform k autoMode (generationId w) g w (snd (create_accept k actor w d))) \<and>
            (\<forall>issue cl. create_accept k actor (w\<lparr>getIssue := issue, completions := cl\<rparr>) d =
               create_accept k actor w d)) \<and>
         (\<forall>gid g. save gid (g\<lparr>status := Some ''pending''\<rparr>) d = Inl ''Generation validation failed'')"
proof (intro conjI allI impI)
  fix gid g
  assume "findById gid d = Some g"
  with assms have "well_formed g" by (blast dest: reachable_store_ok store_okD)
  then show "status g = None \<or> status g = Some ''completed'' \<or> status g = Some ''failed''"
    by (simp add: well_formed_def)
next
  fix k actor w
  show "\<exists>g. fst (create_accept k actor w d) = Inr g \<and>
            findById (generationId w) (snd (create_accept k actor w d)) = Some g \<and>
            status g = None \<and> startedAt g = Some (clock w) \<and>
            (\<forall>autoMode. k \<noteq> [] \<longrightarrow>
               createGeneration (Some k) autoMode actor w d =
                 create_perform k autoMode (generationId w) g w (snd (create_accept k actor w d))) \<and>
            (\<forall>issue cl. create_accept k actor (w\<lparr>getIssue := issue, completions := cl\<rparr>) d =
               create_accept k actor w d)"
    by (rule exI [of _ "new_Generation k actor None ''manual'' (clock w)"])
      (simp add: create_accept_fst findById_create_accept createGeneration_accept_perform
         create_accept_ignores_outcomes,
       simp add: new_Generation_def)
next
  fix gid g
  show "save gid (g\<lparr>status := Some ''pending''\<rparr>) d = Inl ''Generation validation failed''"
    by (simp add: save_def not_validate_pending)
qed

text \<open>The theorem at the sample store, for a second request by another actor.\<close>

theorem created_without_status_witness:
  "reachable example_db \<and> findById ''g1'' example_db = Some example_generation \<and>
   status example_generation = Some ''completed'' \<and>
   (\<exists>g. fst (create_accept ''TES-2'' ''b@y.io'' (example_world\<lparr>generationId := ''g2''\<rparr>) example_db) = Inr g \<and>
        findById ''g2'' (snd (create_accept ''TES-2'' ''b@y.io'' (example_world\<lparr>generationId := ''g2''\<rparr>) example_db)) = Some g \<and>
        status g = None \<and> startedAt g = Some 1000)"
proof -
  note t = created_without_status [OF reachable_example_db]
  from t have "\<exists>g. fst (create_accept ''TES-2'' ''b@y.io'' (example_world\<lparr>generationId := ''g2''\<rparr>) example_db) = Inr g \<and>
        findById (generationId (example_world\<lparr>generationId := ''g2''\<rparr>))
          (snd (create_accept ''TES-2'' ''b@y.io'' (example_world\<lparr>generationId := ''g2''\<rparr>) example_db)) = Some g \<and>
        status g = None \<and> startedAt g = Some (clock (example_world\<lparr>generationId := ''g2''\<rparr>))"
    by blast
  then show ?thesis
    using reachable_example_db findById_example_db
    by (simp add: example_world_def example_generation_def)
qed

text \<open>
  The claim as stated fails: the record that the first request leaves in the empty
  store before the external calls has no status, not the status \<open>pending\<close>.
\<close>

theorem created_without_status_counterexample:
  "map_option status (findById ''g1'' (snd (create_accept ''TES-1'' ''a@x.io'' example_world empty_db))) = Some None \<and>
   map_option status (findById ''g1'' (snd (create_accept ''TES-1'' ''a@x.io'' example_world empty_db))) \<noteq> Some (Some ''pending'')"
  by (simp add: findById_create_accept example_world_def new_Generation_def)

text \<open>
  The stored mode: for every request to POST /testcases with an issue key, whatever
  \<open>autoMode\<close> is, the record saved first and the record the store holds when the
  request has been served both have the mode \<open>manual\<close>.
\<close>

lemma stored_mode_is_manual:
  assumes "k \<noteq> []"
  shows "(\<exists>g. findById (generationId w) (snd (create_accept k actor w d)) = Some g \<and>
              mode g = Some ''manual'') \<and>
         (\<exists>g. findById (generationId w) (snd (createGeneration (Some k) autoMode actor w d)) = Some g \<and>
              mode g = Some ''manual'')"
proof -
  let ?g = "new_Generation k actor None ''manual'' (clock w)"
  have a: "findById (generationId w) (snd (create_accept k actor w d)) = Some ?g"
    by (simp add: findById_create_accept)
  have m: "mode ?g = Some ''manual''" by (simp add: new_Generation_def)
  from create_perform_keeps_mode [OF a, of k autoMode w] m assms show ?thesis
    by (simp add: createGeneration_accept_perform a)
qed

text \<open>The lemma at a request with \<open>autoMode = true\<close> on the empty store.\<close>

lemma stored_mode_is_manual_example:
  "''TES-1'' \<noteq> [] \<and>
   (\<exists>g. findById ''g1'' (snd (createGeneration (Some ''TES-1'') True ''a@x.io'' example_world empty_db)) = Some g \<and>
        mode g = Some ''manual'')"
proof -
  have h: "''TES-1'' \<noteq> []" by simp
  have g: "generationId example_world = ''g1''" by (simp add: example_world_def)
  from stored_mode_is_manual [OF h, of example_world "''a@x.io''" empty_db True] h
  show ?thesis by (simp add: g)
qed

section \<open>Where the code departs from its specification\<close>

lemma generateTestCases_single_call:
  "generateTestCases cl ctx k False =
     (case attempt (cl 0 [(''system'', MANUAL_PROMPT),
                          (''user'', ''\<newline>\<newline>### JIRA Issue: '' @ k @ ''\<newline>\<newline>'' @ ctx)]) of
        Inl e \<Rightarrow> Thrown e
      | Inr r \<Rightarrow> Returned (Some r))"
  by (subst generateTestCases_def, subst while_loop.simps)
    (simp add: systemPrompt_def loop_body_def maxRetries_def Let_def split: sum.splits)

lemma generateTestCases_never_undefined: "generateTestCases cl ctx k autoMode \<noteq> Returned None"
  by (subst generateTestCases_def, subst while_loop.simps)
    (simp add: systemPrompt_def loop_body_def maxRetries_def Let_def split: sum.splits)

text \<open>
  Claim C6 at a failing input. The client fails on its first call and would answer on its
  second and third. The request is answered with that first failure and the generation is
  stored as \<open>failed\<close>: the generator was called once, not up to three times.
\<close>

theorem first_failure_is_final:
  "attempt (flaky_client 0 []) = Inl ''timeout'' \<and>
   attempt (flaky_client 1 []) = Inr (Generated ''# A'' example_usage) \<and>
   attempt (flaky_client 2 []) = Inr (Generated ''# A'' example_usage) \<and>
   fst (createGeneration (Some ''TES-1'') False ''a@x.io'' flaky_world empty_db) =
     Response 500 (ErrorBody ''timeout'') \<and>
   map_option status (findById ''g1'' (snd (createGeneration (Some ''TES-1'') False ''a@x.io'' flaky_world empty_db))) =
     Some (Some ''failed'') \<and>
   map_option error (findById ''g1'' (snd (createGeneration (Some ''TES-1'') False ''a@x.io'' flaky_world empty_db))) =
     Some (Some ''OpenAI generation failed: timeout'')"
  by code_simp

text \<open>
  Claim C9 at a failing input. The issue key TES-1 has the project key TES, and the
  registry creates that project; the stored generation refers to no project, and the
  project's \<open>totalGenerations\<close> is the 0 it was created with, not refreshed.
\<close>

theorem generation_not_attached_to_project:
  "extractProjectKey ''TES-1'' = Some ''TES'' \<and>
   map_option projectKey (map_of (projects example_db) ''p1'') = Some ''TES'' \<and>
   map_option project (findById ''g1'' example_db) = Some None \<and>
   map_option totalGenerations (map_of (projects example_db) ''p1'') = Some 0"
  by code_simp

lemma generateTestCases_auto_throws:
  "generateTestCases cl ctx k True = Thrown ''AUTO_PROMPT is not defined''"
  by (simp add: generateTestCases_def systemPrompt_def)

text \<open>
  Claim C10 at a failing input. The stored mode is \<open>manual\<close> whatever \<open>autoMode\<close>
  is, but the flag does more than choose the prompt that is sent. With \<open>autoMode\<close>
  false the system prompt is \<open>MANUAL_PROMPT\<close> and the sample request completes. With
  \<open>autoMode\<close> true the selection itself throws, since \<open>AUTO_PROMPT\<close> is not
  declared: no prompt is sent to a client that would have answered, the request is
  answered 500, and the generation is stored as \<open>failed\<close>.
\<close>

theorem auto_mode_sends_no_prompt:
  "systemPrompt False = Inr MANUAL_PROMPT \<and>
   systemPrompt True = Inl ''AUTO_PROMPT is not defined'' \<and>
   attempt (completions example_world 0 []) = Inr (Generated ''# A'' example_usage) \<and>
   fst (createGeneration (Some ''TES-1'') True ''a@x.io'' example_world empty_db) =
     Response 500 (ErrorBody ''AUTO_PROMPT is not defined'') \<and>
   map_option status (findById ''g1'' (snd (createGeneration (Some ''TES-1'') True ''a@x.io'' example_world empty_db))) =
     Some (Some ''failed'') \<and>
   map_option error (findById ''g1'' (snd (createGeneration (Some ''TES-1'') True ''a@x.io'' example_world empty_db))) =
     Some (Some ''OpenAI generation failed: AUTO_PROMPT is not defined'') \<and>
   map_option mode (findById ''g1'' (snd (createGeneration (Some ''TES-1'') True ''a@x.io'' example_world empty_db))) =
     Some (Some ''manual'') \<and>
   map_option status (findById ''g1'' (snd (createGeneration (Some ''TES-1'') False ''a@x.io'' example_world empty_db))) =
     Some (Some ''completed'') \<and>
   map_option mode (findById ''g1'' (snd (createGeneration (Some ''TES-1'') False ''a@x.io'' example_world empty_db))) =
     Some (Some ''manual'')"
  by code_simp

end
